theory Spec2Isabelle
  imports Main
begin

section \<open>Data model\<close>

text \<open>
  The repository is an Express/Mongoose backend. Three collections are stored: users
  (engineers and managers), projects and assignments. Object ids are modelled as natural
  numbers.

  A \<open>Date\<close> is an instant: its time value, the number of milliseconds since the epoch
  (an invalid \<open>Date\<close> is not modelled). Two dates are compared by their time values. A
  calendar date such as \<open>2024-03-08\<close> is parsed as midnight UTC of that day. The ISO date
  string \<open>current.toISOString().split('T')[0]\<close> that keys the timeline is the UTC date
  of the instant; it is represented by the number of that day, \<open>utc_date\<close>.

  Percentages are integers, as the POST validation (\<open>isInt\<close>) has them; sums of such
  integers are exact in JavaScript numbers. A fractional \<open>Number\<close>, which the schema does
  not refuse on a PATCH, is outside the model.

  A JavaScript string is a sequence of UTF-16 code units.
\<close>

type_synonym objectId = nat
type_synonym instant = int
type_synonym day = int
type_synonym js_string = "nat list"

definition msPerDay :: int where
  "msPerDay = 86400000"

definition utc_date :: "instant \<Rightarrow> day" where
  "utc_date t = t div msPerDay"

datatype user_role = Engineer | Manager

record user =
  uid :: objectId
  urole :: user_role
  maxCapacity :: int

record project =
  pid :: objectId
  managerId :: objectId

record assignment =
  aid :: objectId
  engineerId :: objectId
  projectId :: objectId
  allocationPercentage :: int
  startDate :: instant
  endDate :: instant
  role :: js_string

record db =
  users :: "user list"
  projects :: "project list"
  assignments :: "assignment list"

section \<open>The time zone of the host\<close>

text \<open>
  \<open>current.setDate(current.getDate() + 1)\<close> works in local time. By ECMAScript
  (\<open>Date.prototype.setDate\<close>, \<open>LocalTime\<close>, \<open>UTC\<close>), with \<open>t\<close> the time value of
  \<open>current\<close>, the new time value is \<open>UTC(LocalTime(t) + msPerDay)\<close>, where
  \<open>LocalTime(t) = t + LocalTZA(t, true)\<close> and \<open>UTC(l) = l - LocalTZA(l, false)\<close>.

  The local time zone adjustment is the host's and not part of the repository: it is a
  parameter, a pair of offset functions (of a UTC instant, and of a local time). In every
  zone a step to the next local day moves the instant forward, an offset change being
  shorter than a day; the type of zones holds the pairs with this property.
\<close>

typedef zone =
  "{(tza_utc :: instant \<Rightarrow> int, tza_local :: int \<Rightarrow> int).
      \<forall>t. t < (t + tza_utc t + msPerDay) - tza_local (t + tza_utc t + msPerDay)}"
  by (rule exI [of _ "(\<lambda>_. 0, \<lambda>_. 0)"]) (simp add: msPerDay_def)

definition LocalTime :: "zone \<Rightarrow> instant \<Rightarrow> int" where
  "LocalTime z t = t + fst (Rep_zone z) t"

definition UTC :: "zone \<Rightarrow> int \<Rightarrow> instant" where
  "UTC z l = l - snd (Rep_zone z) l"

definition setDate_next :: "zone \<Rightarrow> instant \<Rightarrow> instant" where
  "setDate_next z t = UTC z (LocalTime z t + msPerDay)"

section \<open>The timeline map of \<open>checkAvailability\<close>\<close>

text \<open>
  \<open>timelineMap\<close> is a JavaScript \<open>Map\<close>: it keeps its keys in the order of their first
  insertion, and \<open>set\<close> on a key already present replaces the value in place. It is
  modelled as an association list in insertion order.
\<close>

type_synonym timeline = "(day \<times> int) list"

fun map_set :: "day \<Rightarrow> int \<Rightarrow> timeline \<Rightarrow> timeline" where
  "map_set k v [] = [(k, v)]"
| "map_set k v ((k', v') # m) =
     (if k' = k then (k, v) # m else (k', v') # map_set k v m)"

text \<open>\<open>timelineMap.get(dateKey) || 0\<close>: an absent key reads as 0.\<close>

definition get_or_0 :: "timeline \<Rightarrow> day \<Rightarrow> int" where
  "get_or_0 m k = (case map_of m k of None \<Rightarrow> 0 | Some v \<Rightarrow> v)"

text \<open>
  The inner loop of \<open>checkAvailability\<close>:
  \<^verbatim>\<open>
    let current = new Date(assignment.startDate);
    while (current <= assignment.endDate) {
      const dateKey = current.toISOString().split('T')[0];
      timelineMap.set(dateKey, (timelineMap.get(dateKey) || 0) + assignment.allocationPercentage);
      current.setDate(current.getDate() + 1);
    }
  \<close>
\<close>

text \<open>
  \<open>current <= assignment.endDate\<close> compares the two instants, the key is the UTC date of
  \<open>current\<close>, and \<open>setDate\<close> moves \<open>current\<close> to the same local time of the next local
  day.
\<close>

function while_current :: "zone \<Rightarrow> instant \<Rightarrow> instant \<Rightarrow> int \<Rightarrow> timeline \<Rightarrow> timeline" where
  "while_current z current endD pct timelineMap =
     (if current \<le> endD
      then while_current z (setDate_next z current) endD pct
             (map_set (utc_date current) (get_or_0 timelineMap (utc_date current) + pct)
                timelineMap)
      else timelineMap)"
  by pat_completeness auto
termination
proof (relation "measure (\<lambda>(z, current, endD, pct, m). nat (endD + 1 - current))")
  show "wf (measure (\<lambda>(z, current, endD, pct, m). nat (endD + 1 - current)))"
    by simp
next
  fix z :: zone and current endD pct :: int and timelineMap :: timeline
  assume run: "current \<le> endD"
  have "current < setDate_next z current"
    using Rep_zone [of z]
    by (auto simp: setDate_next_def UTC_def LocalTime_def split: prod.splits)
  with run show "((z, setDate_next z current, endD, pct,
               map_set (utc_date current) (get_or_0 timelineMap (utc_date current) + pct)
                 timelineMap),
              (z, current, endD, pct, timelineMap))
             \<in> measure (\<lambda>(z, current, endD, pct, m). nat (endD + 1 - current))"
    by simp
qed

declare while_current.simps [simp del]

definition forEach_assignment :: "zone \<Rightarrow> assignment list \<Rightarrow> timeline \<Rightarrow> timeline" where
  "forEach_assignment z as timelineMap =
     fold (\<lambda>a m. while_current z (startDate a) (endDate a) (allocationPercentage a) m)
       as timelineMap"

text \<open>
  The query of \<open>checkAvailability\<close>:
  \<open>this.find({engineerId, startDate: {$lte: endDate}, endDate: {$gte: startDate}})\<close>.
  The result keeps the collection's order.
\<close>

definition find_overlapping ::
    "assignment list \<Rightarrow> objectId \<Rightarrow> instant \<Rightarrow> instant \<Rightarrow> assignment list" where
  "find_overlapping coll e s t =
     filter (\<lambda>a. engineerId a = e \<and> startDate a \<le> t \<and> endDate a \<ge> s) coll"

record verdict =
  isAvailable :: bool
  allocations :: timeline

definition checkAvailability :: "zone \<Rightarrow> db \<Rightarrow> objectId \<Rightarrow> instant \<Rightarrow> instant \<Rightarrow> verdict" where
  "checkAvailability z d e s t =
     (let found = find_overlapping (assignments d) e s t;
          timelineMap = forEach_assignment z found []
      in \<lparr> isAvailable = list_all (\<lambda>v. v < 100) (map snd timelineMap),
           allocations = timelineMap \<rparr>)"

section \<open>Specification vocabulary\<close>

text \<open>
  An assignment covers an instant that lies in its inclusive date range. A calendar day
  is given by its midnight UTC.
\<close>

definition covers :: "assignment \<Rightarrow> instant \<Rightarrow> bool" where
  "covers a d = (startDate a \<le> d \<and> d \<le> endDate a)"

text \<open>The exact sum of the percentages of the assignments of a list that cover an instant.\<close>

definition total_on :: "assignment list \<Rightarrow> instant \<Rightarrow> int" where
  "total_on as d = sum_list (map allocationPercentage (filter (\<lambda>a. covers a d) as))"

text \<open>The stored assignments of one engineer.\<close>

definition of_engineer :: "db \<Rightarrow> objectId \<Rightarrow> assignment list" where
  "of_engineer d e = filter (\<lambda>a. engineerId a = e) (assignments d)"

text \<open>Two assignments overlap when their inclusive date ranges share a day.\<close>

definition overlaps :: "assignment \<Rightarrow> assignment \<Rightarrow> bool" where
  "overlaps a b = (startDate a \<le> endDate b \<and> startDate b \<le> endDate a)"

fun pairwise_disjoint :: "assignment list \<Rightarrow> bool" where
  "pairwise_disjoint [] = True"
| "pairwise_disjoint (a # as) = (list_all (\<lambda>b. \<not> overlaps a b) as \<and> pairwise_disjoint as)"

text \<open>Midnight UTC of a day, and the dates that are calendar dates.\<close>

definition utc_midnight :: "day \<Rightarrow> instant" where
  "utc_midnight k = k * msPerDay"

definition is_midnight :: "instant \<Rightarrow> bool" where
  "is_midnight t = (t mod msPerDay = 0)"

definition calendar_dates :: "assignment \<Rightarrow> bool" where
  "calendar_dates a = (is_midnight (startDate a) \<and> is_midnight (endDate a))"

text \<open>The calendar days from the \<open>startDate\<close> to the \<open>endDate\<close> of an assignment.\<close>

definition days_of :: "assignment \<Rightarrow> day list" where
  "days_of a = [utc_date (startDate a)..utc_date (endDate a)]"

text \<open>
  A zone whose offset never changes (UTC, or a zone without daylight saving time): a
  step to the next local day is a step of 24 hours.
\<close>

definition fixed_offset :: "zone \<Rightarrow> bool" where
  "fixed_offset z = (\<forall>t. setDate_next z t = t + msPerDay)"

text \<open>Adding a percentage to the entries of a list of days, one after the other.\<close>

definition add_on_days :: "int \<Rightarrow> day list \<Rightarrow> timeline \<Rightarrow> timeline" where
  "add_on_days p ks m = fold (\<lambda>k m. map_set k (get_or_0 m k + p) m) ks m"

text \<open>
  The instants the loop visits for a range, and the UTC dates it keys for an
  assignment, one per visit.
\<close>

function visited :: "zone \<Rightarrow> instant \<Rightarrow> instant \<Rightarrow> instant list" where
  "visited z current endD =
     (if current \<le> endD then current # visited z (setDate_next z current) endD else [])"
  by pat_completeness auto
termination
proof (relation "measure (\<lambda>(z, current, endD). nat (endD + 1 - current))")
  show "wf (measure (\<lambda>(z, current, endD). nat (endD + 1 - current)))"
    by simp
next
  fix z :: zone and current endD :: int
  assume run: "current \<le> endD"
  have "current < setDate_next z current"
    using Rep_zone [of z]
    by (auto simp: setDate_next_def UTC_def LocalTime_def split: prod.splits)
  with run show "((z, setDate_next z current, endD), (z, current, endD))
             \<in> measure (\<lambda>(z, current, endD). nat (endD + 1 - current))"
    by simp
qed

declare visited.simps [simp del]

definition dates :: "zone \<Rightarrow> assignment \<Rightarrow> day list" where
  "dates z a = map utc_date (visited z (startDate a) (endDate a))"

text \<open>
  The order in which a \<open>Map\<close> lists keys that are set one after the other: a key takes its
  place at its first insertion.
\<close>

fun ins :: "day \<Rightarrow> day list \<Rightarrow> day list" where
  "ins k ks = (if k \<in> set ks then ks else ks @ [k])"

declare ins.simps [simp del]

section \<open>Schema validators and \<open>save\<close>\<close>

text \<open>
  \<open>save\<close> runs the validators the schema declares and stores the document when none
  fails; otherwise it throws a \<open>ValidationError\<close> naming the failing paths. Whether the
  document is new and whether \<open>allocationPercentage\<close> is modified are passed in, as
  Mongoose tracks them on the document.
\<close>

datatype error = ValidationError "string list"

text \<open>
  \<^verbatim>\<open>
    const engineer = await User.findById(value);
    return engineer && engineer.role === 'engineer';
  \<close>
\<close>

definition engineerId_validator :: "db \<Rightarrow> objectId \<Rightarrow> bool" where
  "engineerId_validator d v =
     (case find (\<lambda>u. uid u = v) (users d) of
        None \<Rightarrow> False
      | Some engineer \<Rightarrow> urole engineer = Engineer)"

text \<open>
  The validator of \<open>allocationPercentage\<close>:
  \<^verbatim>\<open>
    if (this.isNew || this.isModified('allocationPercentage')) {
      const currentAssignments = await Assignment.find({
        engineerId: this.engineerId, _id: { $ne: this._id },
        startDate: { $lte: this.endDate }, endDate: { $gte: this.startDate } });
      const totalAllocation = currentAssignments.reduce(
        (sum, assignment) => sum + assignment.allocationPercentage, 0) + value;
      return totalAllocation <= 100;
    }
    return true;
  \<close>
\<close>

definition currentAssignments :: "db \<Rightarrow> assignment \<Rightarrow> assignment list" where
  "currentAssignments d this =
     filter (\<lambda>a. engineerId a = engineerId this \<and> aid a \<noteq> aid this \<and>
                 startDate a \<le> endDate this \<and> endDate a \<ge> startDate this)
       (assignments d)"

definition allocationPercentage_validator ::
    "db \<Rightarrow> assignment \<Rightarrow> bool \<Rightarrow> bool \<Rightarrow> int \<Rightarrow> bool" where
  "allocationPercentage_validator d this isNew isModified v =
     (if isNew \<or> isModified
      then (let totalAllocation =
                  foldl (\<lambda>sum a. sum + allocationPercentage a) 0 (currentAssignments d this) + v
            in totalAllocation \<le> 100)
      else True)"

text \<open>\<open>return value > this.startDate\<close>\<close>

definition endDate_validator :: "assignment \<Rightarrow> instant \<Rightarrow> bool" where
  "endDate_validator this v = (v > startDate this)"

text \<open>
  \<open>trim\<close> of a string: white space and line terminators are removed at both ends. These
  are the code units U+0009 to U+000D, U+0020, U+00A0, U+1680, U+2000 to U+200A, U+2028,
  U+2029, U+202F, U+205F, U+3000 and U+FEFF.
\<close>

definition is_space :: "nat \<Rightarrow> bool" where
  "is_space u =
     (u \<in> set ([9, 10, 11, 12, 13, 32, 160, 5760] @ [8192..<8203] @
                [8232, 8233, 8239, 8287, 12288, 65279]))"

definition trim :: "js_string \<Rightarrow> js_string" where
  "trim s = rev (dropWhile is_space (rev (dropWhile is_space s)))"

text \<open>
  The paths that fail validation: \<open>engineerId\<close> (custom validator),
  \<open>allocationPercentage\<close> (\<open>min: 0\<close>, \<open>max: 100\<close>, custom validator), \<open>endDate\<close> (custom
  validator) and \<open>role\<close> (\<open>required\<close>: a string must not be empty).
\<close>

definition validate :: "db \<Rightarrow> assignment \<Rightarrow> bool \<Rightarrow> bool \<Rightarrow> string list" where
  "validate d this isNew isModified =
     (if engineerId_validator d (engineerId this) then [] else [''engineerId'']) @
     (if 0 \<le> allocationPercentage this \<and> allocationPercentage this \<le> 100 \<and>
         allocationPercentage_validator d this isNew isModified (allocationPercentage this)
      then [] else [''allocationPercentage'']) @
     (if endDate_validator this (endDate this) then [] else [''endDate'']) @
     (if role this \<noteq> [] then [] else [''role''])"

definition save :: "db \<Rightarrow> assignment \<Rightarrow> bool \<Rightarrow> bool \<Rightarrow> error + db" where
  "save d this isNew isModified =
     (case validate d this isNew isModified of
        [] \<Rightarrow>
          Inr (d\<lparr>assignments :=
                  (if isNew then assignments d @ [this]
                   else map (\<lambda>a. if aid a = aid this then this else a) (assignments d))\<rparr>)
      | errs \<Rightarrow> Inl (ValidationError errs))"

section \<open>Route handlers\<close>

text \<open>
  A handler takes the database and the request and returns the response (status code and
  JSON body) with the database after the request. The \<open>auth\<close> and \<open>authorize\<close> middleware
  has run before a handler: \<open>user\<close> is \<open>req.user._id\<close>.
\<close>

datatype json =
    Doc assignment
  | Message string
  | Capacity string timeline
  | Availability verdict
  | Errors "string list"

type_synonym response = "nat \<times> json"

record post_body =
  b_engineerId :: objectId
  b_projectId :: objectId
  b_allocationPercentage :: int
  b_startDate :: instant
  b_endDate :: instant
  b_role :: js_string

text \<open>
  \<open>validateAssignment\<close>: \<open>isInt({min: 0, max: 100})\<close> on the percentage and
  \<open>trim().notEmpty()\<close> on the role; the other checks are on the format of ids and dates,
  which the types of \<open>post_body\<close> carry.
\<close>

definition validateAssignment :: "post_body \<Rightarrow> string list" where
  "validateAssignment body =
     (if 0 \<le> b_allocationPercentage body \<and> b_allocationPercentage body \<le> 100
      then [] else [''allocationPercentage'']) @
     (if trim (b_role body) \<noteq> [] then [] else [''role''])"

text \<open>The id of a new document is one no stored assignment has.\<close>

definition new_id :: "db \<Rightarrow> objectId" where
  "new_id d = Suc (fold max (map aid (assignments d)) 0)"

definition new_Assignment :: "db \<Rightarrow> post_body \<Rightarrow> assignment" where
  "new_Assignment d body =
     \<lparr> aid = new_id d, engineerId = b_engineerId body, projectId = b_projectId body,
       allocationPercentage = b_allocationPercentage body, startDate = b_startDate body,
       endDate = b_endDate body, role = trim (b_role body) \<rparr>"

text \<open>\<open>router.post('/')\<close> of the assignment routes.\<close>

definition post_assignment :: "zone \<Rightarrow> db \<Rightarrow> objectId \<Rightarrow> post_body \<Rightarrow> response \<times> db" where
  "post_assignment z d user body =
     (let errors = validateAssignment body in
      if errors \<noteq> [] then ((400, Errors errors), d)
      else
        case find (\<lambda>p. pid p = b_projectId body \<and> managerId p = user) (projects d) of
          None \<Rightarrow> ((404, Message ''Project not found''), d)
        | Some project \<Rightarrow>
           (case find (\<lambda>u. uid u = b_engineerId body \<and> urole u = Engineer) (users d) of
              None \<Rightarrow> ((404, Message ''Engineer not found''), d)
            | Some engineer \<Rightarrow>
               (let availability =
                      checkAvailability z d (b_engineerId body) (b_startDate body)
                        (b_endDate body)
                in
                if \<not> isAvailable availability
                then ((400, Capacity ''Engineer does not have sufficient capacity for this assignment''
                              (allocations availability)), d)
                else
                  (let assignment = new_Assignment d body in
                   case save d assignment True True of
                     Inl err \<Rightarrow> ((500, Message ''Error creating assignment''), d)
                   | Inr d' \<Rightarrow> ((201, Doc assignment), d')))))"

text \<open>
  The body of a PATCH request: the allowed keys, each present or not, and the other keys
  it holds.
\<close>

record patch_body =
  p_allocationPercentage :: "int option"
  p_startDate :: "instant option"
  p_endDate :: "instant option"
  p_role :: "js_string option"
  p_otherKeys :: "string list"

text \<open>\<open>if (req.body.allocationPercentage)\<close>: an absent key and the number 0 are falsy.\<close>

definition truthy :: "int option \<Rightarrow> bool" where
  "truthy v = (case v of None \<Rightarrow> False | Some n \<Rightarrow> n \<noteq> 0)"

text \<open>\<open>updates.forEach(update => assignment[update] = req.body[update])\<close>\<close>

definition apply_updates :: "assignment \<Rightarrow> patch_body \<Rightarrow> assignment" where
  "apply_updates a body =
     a\<lparr> allocationPercentage :=
          (case p_allocationPercentage body of None \<Rightarrow> allocationPercentage a | Some v \<Rightarrow> v),
        startDate := (case p_startDate body of None \<Rightarrow> startDate a | Some v \<Rightarrow> v),
        endDate := (case p_endDate body of None \<Rightarrow> endDate a | Some v \<Rightarrow> v),
        role := (case p_role body of None \<Rightarrow> role a | Some v \<Rightarrow> trim v) \<rparr>"

text \<open>
  \<open>isModified('allocationPercentage')\<close> after the updates: the path is modified when it was
  assigned a value other than the one loaded.
\<close>

definition isModified_allocationPercentage :: "assignment \<Rightarrow> patch_body \<Rightarrow> bool" where
  "isModified_allocationPercentage a body =
     (case p_allocationPercentage body of None \<Rightarrow> False | Some v \<Rightarrow> v \<noteq> allocationPercentage a)"

text \<open>
  \<open>router.patch('/:id')\<close> of the assignment routes. A project that does not exist makes
  \<open>assignment.projectId.managerId\<close> throw, which the handler catches.
\<close>

definition patch_assignment ::
    "zone \<Rightarrow> db \<Rightarrow> objectId \<Rightarrow> objectId \<Rightarrow> patch_body \<Rightarrow> response \<times> db" where
  "patch_assignment z d user i body =
     (if p_otherKeys body \<noteq> [] then ((400, Message ''Invalid updates''), d)
      else
        case find (\<lambda>a. aid a = i) (assignments d) of
          None \<Rightarrow> ((404, Message ''Assignment not found''), d)
        | Some assignment \<Rightarrow>
           (case find (\<lambda>p. pid p = projectId assignment) (projects d) of
              None \<Rightarrow> ((400, Message ''Error updating assignment''), d)
            | Some project \<Rightarrow>
               if managerId project \<noteq> user
               then ((403, Message ''Not authorized to update this assignment''), d)
               else
                 (let availability =
                        checkAvailability z d (engineerId assignment)
                          (startDate assignment) (endDate assignment)
                  in
                  if truthy (p_allocationPercentage body) \<and> \<not> isAvailable availability
                  then ((400, Capacity ''Engineer does not have sufficient capacity for this update''
                                (allocations availability)), d)
                  else
                    (let updated = apply_updates assignment body in
                     case save d updated False (isModified_allocationPercentage assignment body) of
                       Inl err \<Rightarrow> ((400, Message ''Error updating assignment''), d)
                     | Inr d' \<Rightarrow> ((200, Doc updated), d')))))"

text \<open>\<open>router.get('/:id/availability')\<close> of the engineer routes.\<close>

definition get_availability ::
    "zone \<Rightarrow> db \<Rightarrow> objectId \<Rightarrow> instant option \<Rightarrow> instant option \<Rightarrow> response" where
  "get_availability z d i s t =
     (case (s, t) of
        (Some s', Some t') \<Rightarrow> (200, Availability (checkAvailability z d i s' t'))
      | _ \<Rightarrow> (400, Message ''Start date and end date are required''))"

section \<open>\<open>checkAvailability\<close> over a heap of \<open>Date\<close> objects\<close>

text \<open>
  A \<open>Date\<close> is a mutable object: \<open>current.setDate\<close> changes it in place. To state that
  the evaluation leaves the documents it reads as they were, the loops are modelled a
  second time over an explicit heap: a list of \<open>Date\<close> cells addressed by position, in
  which a found document holds the addresses of its \<open>startDate\<close> and \<open>endDate\<close>.
  \<open>new Date(assignment.startDate)\<close> allocates a new cell with the same time value.
\<close>

type_synonym heap = "instant list"

record doc_ref =
  ref_startDate :: nat
  ref_endDate :: nat
  ref_allocationPercentage :: int

partial_function (option) while_current_heap ::
    "zone \<Rightarrow> heap \<Rightarrow> nat \<Rightarrow> nat \<Rightarrow> int \<Rightarrow> timeline \<Rightarrow> (heap \<times> timeline) option" where
  "while_current_heap z h current endRef pct timelineMap =
     (if h ! current \<le> h ! endRef
      then while_current_heap z (h[current := setDate_next z (h ! current)]) current endRef pct
             (map_set (utc_date (h ! current))
                (get_or_0 timelineMap (utc_date (h ! current)) + pct) timelineMap)
      else Some (h, timelineMap))"

fun forEach_heap ::
    "zone \<Rightarrow> heap \<Rightarrow> doc_ref list \<Rightarrow> timeline \<Rightarrow> (heap \<times> timeline) option" where
  "forEach_heap z h [] timelineMap = Some (h, timelineMap)"
| "forEach_heap z h (r # rs) timelineMap =
     (let current = length h;
          h0 = h @ [h ! ref_startDate r]
      in case while_current_heap z h0 current (ref_endDate r) (ref_allocationPercentage r)
                timelineMap of
           None \<Rightarrow> None
         | Some (h1, m1) \<Rightarrow> forEach_heap z h1 rs m1)"

definition checkAvailability_heap ::
    "zone \<Rightarrow> heap \<Rightarrow> doc_ref list \<Rightarrow> (heap \<times> verdict) option" where
  "checkAvailability_heap z h found =
     (case forEach_heap z h found [] of
        None \<Rightarrow> None
      | Some (h', timelineMap) \<Rightarrow>
          Some (h', \<lparr> isAvailable = list_all (\<lambda>v. v < 100) (map snd timelineMap),
                      allocations = timelineMap \<rparr>))"

text \<open>The document a reference stands for in a heap.\<close>

definition deref :: "heap \<Rightarrow> doc_ref \<Rightarrow> instant \<times> instant \<times> int" where
  "deref h r = (h ! ref_startDate r, h ! ref_endDate r, ref_allocationPercentage r)"

definition valid_refs :: "heap \<Rightarrow> doc_ref list \<Rightarrow> bool" where
  "valid_refs h rs = list_all (\<lambda>r. ref_startDate r < length h \<and> ref_endDate r < length h) rs"

section \<open>Example zones and databases\<close>

text \<open>The zone of a host that runs in UTC.\<close>

definition utc :: zone where
  "utc = Abs_zone (\<lambda>_. 0, \<lambda>_. 0)"

text \<open>
  A zone five hours behind UTC that moves its clocks forward by one hour at 07:00 UTC of
  day 2 (02:00 local time); a local time in the skipped hour is read with the offset
  before the change.
\<close>

definition spring_forward :: zone where
  "spring_forward =
     Abs_zone (\<lambda>t. if t < 2 * msPerDay + 25200000 then - 18000000 else - 14400000,
               \<lambda>l. if l < 2 * msPerDay + 25200000 - 14400000 then - 18000000 else - 14400000)"

definition engineer1 :: user where
  "engineer1 = \<lparr> uid = 1, urole = Engineer, maxCapacity = 100 \<rparr>"

definition engineer2 :: user where
  "engineer2 = \<lparr> uid = 2, urole = Engineer, maxCapacity = 50 \<rparr>"

definition manager9 :: user where
  "manager9 = \<lparr> uid = 9, urole = Manager, maxCapacity = 100 \<rparr>"

definition project1 :: project where
  "project1 = \<lparr> pid = 1, managerId = 9 \<rparr>"

text \<open>An assignment from one calendar day to another, both given as day numbers.\<close>

definition mk :: "objectId \<Rightarrow> objectId \<Rightarrow> int \<Rightarrow> day \<Rightarrow> day \<Rightarrow> assignment" where
  "mk i e p s t = \<lparr> aid = i, engineerId = e, projectId = 1, allocationPercentage = p,
                    startDate = utc_midnight s, endDate = utc_midnight t,
                    role = map of_char ''developer'' \<rparr>"

definition db_of :: "assignment list \<Rightarrow> db" where
  "db_of as = \<lparr> users = [engineer1, engineer2, manager9], projects = [project1],
                assignments = as \<rparr>"

text \<open>Scenario A of the specification: one assignment at 60% on days 1 to 10.\<close>

definition scenario_A :: db where
  "scenario_A = db_of [mk 1 1 60 1 10]"

text \<open>One assignment at 100% on days 1 to 5.\<close>

definition fully_booked :: db where
  "fully_booked = db_of [mk 1 1 100 1 5]"

text \<open>Two assignments of one engineer, the later one stored first.\<close>

definition two_ranges :: db where
  "two_ranges = db_of [mk 1 1 40 5 8, mk 2 1 30 1 3]"

text \<open>Two assignments of one engineer at 60% each, on days 1 to 5 and on days 10 to 15.\<close>

definition two_sixties :: db where
  "two_sixties = db_of [mk 1 1 60 1 5, mk 2 1 60 10 15]"

text \<open>Two engineers with the same assignments and different \<open>maxCapacity\<close>.\<close>

definition twins :: db where
  "twins = db_of [mk 1 1 60 1 5, mk 2 2 60 1 5]"

section \<open>Days and instants\<close>

lemma msPerDay_pos: "0 < msPerDay"
  by (simp add: msPerDay_def)

lemma setDate_next_advances: "t < setDate_next z t"
  using Rep_zone [of z]
  by (auto simp: setDate_next_def UTC_def LocalTime_def split: prod.splits)

lemma utc_date_next_day: "utc_date (t + msPerDay) = utc_date t + 1"
  by (simp add: utc_date_def msPerDay_def)

lemma utc_date_mono: "s \<le> t \<Longrightarrow> utc_date s \<le> utc_date t"
  using msPerDay_pos by (simp add: utc_date_def zdiv_mono1)

lemma utc_date_utc_midnight: "utc_date (utc_midnight k) = k"
  using msPerDay_pos by (simp add: utc_date_def utc_midnight_def)

lemma is_midnight_utc_midnight: "is_midnight (utc_midnight k)"
  by (simp add: is_midnight_def utc_midnight_def)

lemma utc_midnight_utc_date: "is_midnight t \<Longrightarrow> utc_midnight (utc_date t) = t"
  by (auto simp: is_midnight_def utc_midnight_def utc_date_def)

lemma is_midnight_next_day: "is_midnight t \<Longrightarrow> is_midnight (t + msPerDay)"
  by (simp add: is_midnight_def)

lemma utc_midnight_le: "(utc_midnight j \<le> utc_midnight k) = (j \<le> k)"
  using msPerDay_pos by (simp add: utc_midnight_def)

lemma midnight_le_iff:
  assumes "is_midnight s" "is_midnight t"
  shows "(s \<le> t) = (utc_date s \<le> utc_date t)"
  using utc_midnight_le [of "utc_date s" "utc_date t"] assms
  by (simp add: utc_midnight_utc_date)

lemma Rep_utc: "Rep_zone utc = (\<lambda>_. 0, \<lambda>_. 0)"
  unfolding utc_def by (rule Abs_zone_inverse) (simp add: msPerDay_def)

lemma setDate_next_utc: "setDate_next utc t = t + msPerDay"
  by (simp add: setDate_next_def UTC_def LocalTime_def Rep_utc)

lemma fixed_offset_utc: "fixed_offset utc"
  by (simp add: fixed_offset_def setDate_next_utc)

lemma Rep_spring_forward:
  "Rep_zone spring_forward =
     (\<lambda>t. if t < 2 * msPerDay + 25200000 then - 18000000 else - 14400000,
      \<lambda>l. if l < 2 * msPerDay + 25200000 - 14400000 then - 18000000 else - 14400000)"
  unfolding spring_forward_def by (rule Abs_zone_inverse) (simp add: msPerDay_def)

section \<open>Properties of the timeline map\<close>

lemma map_of_map_set: "map_of (map_set k v m) = (map_of m)(k \<mapsto> v)"
  by (induction m) (auto simp: fun_eq_iff)

lemma keys_map_set:
  "map fst (map_set k v m) = (if k \<in> fst ` set m then map fst m else map fst m @ [k])"
  by (induction m) (force+)

lemma get_or_0_map_set:
  "get_or_0 (map_set k v m) d = (if d = k then v else get_or_0 m d)"
  by (simp add: get_or_0_def map_of_map_set)

lemma while_current_visited:
  "while_current z c e p m = add_on_days p (map utc_date (visited z c e)) m"
proof (induction z c e p m rule: while_current.induct)
  case (1 z current endD pct timelineMap)
  show ?case
  proof (cases "current \<le> endD")
    case True
    then show ?thesis
      using "1.IH" [OF True]
      by (subst while_current.simps, subst visited.simps) (simp add: add_on_days_def)
  next
    case False
    then show ?thesis
      by (subst while_current.simps, subst visited.simps) (simp add: add_on_days_def)
  qed
qed

lemma get_or_0_add_on_days:
  "get_or_0 (add_on_days p ks m) k = get_or_0 m k + p * int (count_list ks k)"
  unfolding add_on_days_def
  by (induction ks arbitrary: m) (simp_all add: get_or_0_map_set algebra_simps)

lemma keys_add_on_days: "map fst (add_on_days p ks m) = fold ins ks (map fst m)"
  unfolding add_on_days_def
proof (induction ks arbitrary: m)
  case Nil
  then show ?case by simp
next
  case (Cons k ks)
  have "map fst (map_set k (get_or_0 m k + p) m) = ins k (map fst m)"
    by (simp add: keys_map_set ins.simps [of k])
  then show ?case
    using Cons by simp
qed

lemma forEach_assignment_dates:
  "forEach_assignment z as m =
     fold (\<lambda>a. add_on_days (allocationPercentage a) (dates z a)) as m"
  by (simp add: forEach_assignment_def while_current_visited dates_def)

lemma get_or_0_forEach:
  "get_or_0 (forEach_assignment z as m) k =
     get_or_0 m k + (\<Sum>a\<leftarrow>as. allocationPercentage a * int (count_list (dates z a) k))"
  unfolding forEach_assignment_dates
  by (induction as arbitrary: m) (simp_all add: get_or_0_add_on_days)

lemma keys_forEach:
  "map fst (forEach_assignment z as m) = fold ins (concat (map (dates z) as)) (map fst m)"
  unfolding forEach_assignment_dates
  by (induction as arbitrary: m) (simp_all add: keys_add_on_days)

lemma fold_ins_first: "fold ins xs [] = rev (remdups (rev xs))"
proof (induction xs rule: rev_induct)
  case Nil
  then show ?case by simp
next
  case (snoc x xs)
  then show ?case by (simp add: ins.simps [of x])
qed

lemma distinct_keys_forEach: "distinct (map fst (forEach_assignment z as []))"
  by (simp add: keys_forEach fold_ins_first)

lemma set_keys_forEach:
  "set (map fst (forEach_assignment z as [])) = (\<Union>a\<in>set as. set (dates z a))"
  by (simp add: keys_forEach fold_ins_first)

lemma map_of_forEach:
  "map_of (forEach_assignment z as []) k =
     (if \<exists>a\<in>set as. k \<in> set (dates z a)
      then Some (\<Sum>a\<leftarrow>as. allocationPercentage a * int (count_list (dates z a) k))
      else None)"
proof (cases "\<exists>a\<in>set as. k \<in> set (dates z a)")
  case True
  then have "k \<in> fst ` set (forEach_assignment z as [])"
    using set_keys_forEach [of z as] by auto
  then obtain v where v: "map_of (forEach_assignment z as []) k = Some v"
    by (metis domD dom_map_of_conv_image_fst)
  then have "get_or_0 (forEach_assignment z as []) k = v"
    by (simp add: get_or_0_def)
  moreover have "get_or_0 (forEach_assignment z as []) k =
                   (\<Sum>a\<leftarrow>as. allocationPercentage a * int (count_list (dates z a) k))"
    by (simp add: get_or_0_forEach) (simp add: get_or_0_def)
  ultimately show ?thesis
    using v True by simp
next
  case False
  then have "k \<notin> fst ` set (forEach_assignment z as [])"
    using set_keys_forEach [of z as] by auto
  then have "map_of (forEach_assignment z as []) k = None"
    by (simp add: map_of_eq_None_iff)
  with False show ?thesis by simp
qed

section \<open>A zone without offset change and calendar dates\<close>

lemma distinct_count: "distinct xs \<Longrightarrow> count_list xs x = (if x \<in> set xs then 1 else 0)"
  by (induction xs) auto

lemma visited_fixed_offset:
  "fixed_offset z \<Longrightarrow> is_midnight c \<Longrightarrow> is_midnight e \<Longrightarrow>
     map utc_date (visited z c e) = [utc_date c..utc_date e]"
proof (induction z c e rule: visited.induct)
  case (1 z current endD)
  have next_day: "setDate_next z current = current + msPerDay"
    using "1.prems"(1) by (simp add: fixed_offset_def)
  show ?case
  proof (cases "current \<le> endD")
    case True
    have "map utc_date (visited z (setDate_next z current) endD) =
            [utc_date (setDate_next z current)..utc_date endD]"
      using "1.IH" [OF True] "1.prems" by (simp add: next_day is_midnight_next_day)
    then have rest: "map utc_date (visited z (setDate_next z current) endD) =
                       [utc_date current + 1..utc_date endD]"
      by (simp add: next_day utc_date_next_day)
    have "utc_date current \<le> utc_date endD"
      using True by (rule utc_date_mono)
    then show ?thesis
      using True rest
      by (subst visited.simps) (simp add: upto_rec1 [of "utc_date current"])
  next
    case False
    then have "utc_date endD < utc_date current"
      using midnight_le_iff [OF "1.prems"(2,3)] by simp
    then show ?thesis
      using False by (subst visited.simps) simp
  qed
qed

lemma dates_fixed_offset:
  "fixed_offset z \<Longrightarrow> calendar_dates a \<Longrightarrow> dates z a = days_of a"
  by (simp add: dates_def days_of_def calendar_dates_def visited_fixed_offset)

lemma day_in_days_of:
  assumes "calendar_dates a"
  shows "(k \<in> set (days_of a)) = covers a (utc_midnight k)"
proof -
  have s: "(startDate a \<le> utc_midnight k) = (utc_date (startDate a) \<le> k)"
    using midnight_le_iff [of "startDate a" "utc_midnight k"] assms
    by (simp add: calendar_dates_def is_midnight_utc_midnight utc_date_utc_midnight)
  have e: "(utc_midnight k \<le> endDate a) = (k \<le> utc_date (endDate a))"
    using midnight_le_iff [of "utc_midnight k" "endDate a"] assms
    by (simp add: calendar_dates_def is_midnight_utc_midnight utc_date_utc_midnight)
  show ?thesis
    by (simp add: days_of_def covers_def s e)
qed

lemma count_days_of:
  assumes "calendar_dates a"
  shows "count_list (days_of a) k = (if covers a (utc_midnight k) then 1 else 0)"
proof -
  have "distinct (days_of a)"
    by (simp add: days_of_def)
  then have "count_list (days_of a) k = (if k \<in> set (days_of a) then 1 else 0)"
    by (rule distinct_count)
  then show ?thesis
    by (simp add: day_in_days_of [OF assms])
qed

lemma weighted_sum_fixed_offset:
  assumes "fixed_offset z" "list_all calendar_dates as"
  shows "(\<Sum>a\<leftarrow>as. allocationPercentage a * int (count_list (dates z a) k)) =
           total_on as (utc_midnight k)"
  using assms(2)
proof (induction as)
  case Nil
  then show ?case by (simp add: total_on_def)
next
  case (Cons a as)
  then show ?case
    using assms(1)
    by (simp add: total_on_def dates_fixed_offset count_days_of)
qed

lemma map_of_forEach_fixed_offset:
  assumes "fixed_offset z" "list_all calendar_dates as"
  shows "map_of (forEach_assignment z as []) k =
           (if \<exists>a\<in>set as. covers a (utc_midnight k)
            then Some (total_on as (utc_midnight k)) else None)"
proof -
  have "(\<exists>a\<in>set as. k \<in> set (dates z a)) = (\<exists>a\<in>set as. covers a (utc_midnight k))"
    using assms by (auto simp: list_all_iff dates_fixed_offset day_in_days_of)
  then show ?thesis
    using weighted_sum_fixed_offset [OF assms]
    by (simp add: map_of_forEach)
qed

lemma keys_fixed_offset:
  assumes "fixed_offset z" "list_all calendar_dates as"
  shows "map (dates z) as = map days_of as"
  using assms by (simp add: list_all_iff dates_fixed_offset)

section \<open>The verdict and the query\<close>

lemma total_on_Cons:
  "total_on (a # as) d = (if covers a d then allocationPercentage a else 0) + total_on as d"
  by (simp add: total_on_def)

lemma allocations_checkAvailability:
  "allocations (checkAvailability z d e s t) =
     forEach_assignment z (find_overlapping (assignments d) e s t) []"
  by (simp add: checkAvailability_def Let_def)

lemma isAvailable_checkAvailability:
  "isAvailable (checkAvailability z d e s t) =
     list_all (\<lambda>v. v < 100)
       (map snd (forEach_assignment z (find_overlapping (assignments d) e s t) []))"
  by (simp add: checkAvailability_def Let_def)



lemma some_value_at_least_100:
  "(\<not> list_all (\<lambda>v. v < 100) (map snd m)) = (\<exists>x v. (x, v) \<in> set m \<and> (100::int) \<le> v)"
  by (force simp: list_all_iff not_less)

lemma total_on_none_covering:
  "\<forall>a\<in>set as. \<not> covers a x \<Longrightarrow> total_on as x = 0"
  by (induction as) (simp_all add: total_on_def)

lemma overlaps_if_both_cover: "covers a x \<Longrightarrow> covers b x \<Longrightarrow> overlaps a b"
  by (simp add: covers_def overlaps_def)

lemma total_on_pairwise_disjoint:
  "pairwise_disjoint as \<Longrightarrow> a \<in> set as \<Longrightarrow> covers a x \<Longrightarrow>
     total_on as x = allocationPercentage a"
proof (induction as)
  case Nil
  then show ?case by simp
next
  case (Cons b as)
  show ?case
  proof (cases "covers b x")
    case True
    have none: "\<forall>c\<in>set as. \<not> covers c x"
      using Cons.prems(1) True overlaps_if_both_cover [of b x]
      by (auto simp: list_all_iff)
    then have "a = b"
      using Cons.prems(2,3) by auto
    then show ?thesis
      using True none by (simp add: total_on_Cons total_on_none_covering)
  next
    case False
    then have "a \<in> set as"
      using Cons.prems(2,3) by auto
    then show ?thesis
      using Cons False by (simp add: total_on_Cons)
  qed
qed

lemma foldl_sum:
  "foldl (\<lambda>sum a. sum + allocationPercentage a) acc as =
     acc + sum_list (map allocationPercentage as)"
  by (induction as arbitrary: acc) simp_all

lemma sum_list_filter_le:
  "\<forall>a\<in>set as. 0 \<le> allocationPercentage a \<Longrightarrow>
     sum_list (map allocationPercentage (filter P as)) \<le> sum_list (map allocationPercentage as)"
  by (induction as) auto

lemma forEach_assignment_triples:
  "forEach_assignment z as m =
     fold (\<lambda>(s, e, p). while_current z s e p)
       (map (\<lambda>a. (startDate a, endDate a, allocationPercentage a)) as) m"
  unfolding forEach_assignment_def
  by (induction as arbitrary: m) simp_all

section \<open>The save-time validator and the create path\<close>

lemma validator_bounds_day_total:
  assumes stored: "list_all (\<lambda>a. 0 \<le> allocationPercentage a) (assignments d)"
    and runs: "isNew \<or> isModified"
    and accepted: "allocationPercentage_validator d this isNew isModified v"
    and day: "startDate this \<le> x" "x \<le> endDate this"
  shows "v + total_on (filter (\<lambda>a. engineerId a = engineerId this \<and> aid a \<noteq> aid this)
                        (assignments d)) x \<le> 100"
proof -
  let ?others = "filter (\<lambda>a. engineerId a = engineerId this \<and> aid a \<noteq> aid this) (assignments d)"
  let ?cur = "currentAssignments d this"
  have same: "filter (\<lambda>a. covers a x) ?others = filter (\<lambda>a. covers a x) ?cur"
    using day unfolding currentAssignments_def covers_def filter_filter
    by (intro filter_cong) auto
  have nonneg: "\<forall>a\<in>set ?cur. 0 \<le> allocationPercentage a"
    using stored by (auto simp: currentAssignments_def list_all_iff)
  have "total_on ?others x = sum_list (map allocationPercentage (filter (\<lambda>a. covers a x) ?cur))"
    unfolding total_on_def by (simp only: same)
  also have "\<dots> \<le> sum_list (map allocationPercentage ?cur)"
    using nonneg by (rule sum_list_filter_le)
  finally have le: "total_on ?others x \<le> sum_list (map allocationPercentage ?cur)" .
  have "sum_list (map allocationPercentage ?cur) + v \<le> 100"
    using accepted runs by (simp add: allocationPercentage_validator_def foldl_sum)
  with le show ?thesis by simp
qed

lemma fold_max_ge: "acc \<le> fold max xs (acc::nat) \<and> (\<forall>x\<in>set xs. x \<le> fold max xs acc)"
proof (induction xs arbitrary: acc)
  case Nil
  then show ?case by simp
next
  case (Cons y ys)
  have "max y acc \<le> fold max ys (max y acc)" and "\<forall>x\<in>set ys. x \<le> fold max ys (max y acc)"
    using Cons.IH [of "max y acc"] by simp_all
  then show ?case by auto
qed

lemma new_id_fresh: "a \<in> set (assignments d) \<Longrightarrow> aid a \<noteq> new_id d"
  using fold_max_ge [of 0 "map aid (assignments d)"]
  by (fastforce simp: new_id_def)

lemma total_on_append: "total_on (as @ bs) x = total_on as x + total_on bs x"
  by (simp add: total_on_def)

lemma save_new_accepted:
  assumes "save d a True m = Inr d'"
  shows "validate d a True m = [] \<and> assignments d' = assignments d @ [a]"
  using assms by (auto simp: save_def split: list.splits)

lemma post_assignment_created:
  assumes "post_assignment z d user body = ((201, Doc a), d')"
  shows "a = new_Assignment d body \<and> save d a True True = Inr d'"
  using assms
  by (auto simp: post_assignment_def Let_def split: if_splits option.splits sum.splits)

lemma post_assignment_preserves_capacity:
  assumes created: "post_assignment z d user body = ((201, Doc a), d')"
    and nonneg: "list_all (\<lambda>a. 0 \<le> allocationPercentage a) (assignments d)"
    and inv: "\<forall>e x. total_on (of_engineer d e) x \<le> 100"
  shows "\<forall>e x. total_on (of_engineer d' e) x \<le> 100"
proof (intro allI)
  fix e x
  from post_assignment_created [OF created]
  have a: "a = new_Assignment d body" and sv: "save d a True True = Inr d'" by blast+
  from save_new_accepted [OF sv]
  have ok: "validate d a True True = []" and st: "assignments d' = assignments d @ [a]" by blast+
  have acc: "allocationPercentage_validator d a True True (allocationPercentage a)"
    using ok by (auto simp: validate_def split: if_splits)
  have others: "filter (\<lambda>b. engineerId b = engineerId a \<and> aid b \<noteq> aid a) (assignments d) =
                of_engineer d (engineerId a)"
    unfolding of_engineer_def
    using new_id_fresh [of _ d] a by (intro filter_cong) (auto simp: new_Assignment_def)
  show "total_on (of_engineer d' e) x \<le> 100"
  proof (cases "engineerId a = e \<and> covers a x")
    case True
    then have "allocationPercentage a + total_on (of_engineer d e) x \<le> 100"
      using validator_bounds_day_total [OF nonneg _ acc, of x] others
      by (simp add: covers_def)
    then show ?thesis
      using True by (simp add: of_engineer_def st total_on_append total_on_def)
  next
    case False
    then have "total_on (of_engineer d' e) x = total_on (of_engineer d e) x"
      by (auto simp: of_engineer_def st total_on_append total_on_def)
    then show ?thesis using inv by simp
  qed
qed

text \<open>
  The schema's \<open>min: 0\<close> keeps every stored percentage non-negative: \<open>save\<close> and the
  handlers that call it preserve this.
\<close>

lemma save_keeps_nonneg:
  assumes "save d a isNew isModified = Inr d'"
    and "list_all (\<lambda>a. 0 \<le> allocationPercentage a) (assignments d)"
  shows "list_all (\<lambda>a. 0 \<le> allocationPercentage a) (assignments d')"
proof -
  have v: "validate d a isNew isModified = []"
    using assms(1) by (auto simp: save_def split: list.splits)
  then have a: "0 \<le> allocationPercentage a"
    by (auto simp: validate_def split: if_splits)
  have "assignments d' =
          (if isNew then assignments d @ [a]
           else map (\<lambda>b. if aid b = aid a then a else b) (assignments d))"
    using assms(1) v by (auto simp: save_def)
  then show ?thesis
    using a assms(2) by (auto simp: list_all_iff)
qed

lemma post_assignment_keeps_nonneg:
  assumes "list_all (\<lambda>a. 0 \<le> allocationPercentage a) (assignments d)"
  shows "list_all (\<lambda>a. 0 \<le> allocationPercentage a) (assignments (snd (post_assignment z d user body)))"
  using assms save_keeps_nonneg [of d "new_Assignment d body" True True]
  by (auto simp: post_assignment_def Let_def split: option.splits sum.splits)

lemma patch_assignment_keeps_nonneg:
  assumes "list_all (\<lambda>a. 0 \<le> allocationPercentage a) (assignments d)"
  shows "list_all (\<lambda>a. 0 \<le> allocationPercentage a) (assignments (snd (patch_assignment z d user i body)))"
proof -
  have "list_all (\<lambda>a. 0 \<le> allocationPercentage a)
          (assignments (snd (case save d a False m of
                               Inl err \<Rightarrow> ((400, Message ''Error updating assignment''), d)
                             | Inr d' \<Rightarrow> ((200, Doc a), d'))))" for a m
    using assms save_keeps_nonneg [of d a False m]
    by (auto split: sum.splits)
  then show ?thesis
    using assms
    by (auto simp: patch_assignment_def Let_def split: option.splits simp del: One_nat_def)
qed

section \<open>The heap model computes the same timeline\<close>

lemma while_current_heap_run:
  assumes "current \<noteq> endRef" "current < length h" "endRef < length h"
  shows "\<exists>v. while_current_heap z h current endRef p m =
               Some (h[current := v], while_current z (h ! current) (h ! endRef) p m)"
  using assms
proof (induction "nat (h ! endRef + 1 - h ! current)" arbitrary: h m rule: less_induct)
  case less
  show ?case
  proof (cases "h ! current \<le> h ! endRef")
    case False
    then have "while_current_heap z h current endRef p m =
                 Some (h[current := h ! current],
                       while_current z (h ! current) (h ! endRef) p m)"
      by (subst while_current_heap.simps, subst while_current.simps) simp
    then show ?thesis by blast
  next
    case True
    let ?h = "h[current := setDate_next z (h ! current)]"
    let ?m = "map_set (utc_date (h ! current)) (get_or_0 m (utc_date (h ! current)) + p) m"
    have cur: "?h ! current = setDate_next z (h ! current)" and en: "?h ! endRef = h ! endRef"
      using less.prems by simp_all
    have "nat (?h ! endRef + 1 - ?h ! current) < nat (h ! endRef + 1 - h ! current)"
      using True setDate_next_advances [of "h ! current" z] by (simp add: cur en)
    moreover have "current < length ?h" "endRef < length ?h"
      using less.prems by simp_all
    ultimately obtain v where
      "while_current_heap z ?h current endRef p ?m =
         Some (?h[current := v], while_current z (?h ! current) (?h ! endRef) p ?m)"
      using less.hyps [of ?h ?m] less.prems(1) by blast
    then have "while_current_heap z h current endRef p m =
                 Some (h[current := v], while_current z (h ! current) (h ! endRef) p m)"
      using True
      by (subst while_current_heap.simps, subst while_current.simps) (simp add: cur en)
    then show ?thesis by blast
  qed
qed

lemma deref_unchanged:
  assumes "valid_refs h rs" "length h \<le> length h'" "take (length h) h' = h"
  shows "map (deref h') rs = map (deref h) rs \<and> valid_refs h' rs"
proof -
  have "h' ! i = h ! i" if "i < length h" for i
    using that assms(3) by (metis nth_take)
  then show ?thesis
    using assms(1,2) by (auto simp: valid_refs_def deref_def list_all_iff)
qed

lemma forEach_heap_run:
  assumes "valid_refs h rs"
  shows "\<exists>h'. forEach_heap z h rs m =
                Some (h', fold (\<lambda>(s, e, p). while_current z s e p) (map (deref h) rs) m) \<and>
              length h \<le> length h' \<and> take (length h) h' = h"
  using assms
proof (induction rs arbitrary: h m)
  case Nil
  then show ?case by simp
next
  case (Cons r rs)
  let ?h0 = "h @ [h ! ref_startDate r]"
  let ?c = "length h"
  let ?e = "ref_endDate r"
  let ?p = "ref_allocationPercentage r"
  have r: "ref_startDate r < length h" "?e < length h" and rs: "valid_refs h rs"
    using Cons.prems by (simp_all add: valid_refs_def)
  let ?m1 = "while_current z (h ! ref_startDate r) (h ! ?e) ?p m"
  from while_current_heap_run [of ?c ?e ?h0 z ?p m] r obtain v where
    w: "while_current_heap z ?h0 ?c ?e ?p m = Some (?h0[?c := v], ?m1)"
    by (auto simp: nth_append)
  let ?h1 = "?h0[?c := v]"
  have h1: "length h \<le> length ?h1" "take (length h) ?h1 = h"
    by simp_all
  from deref_unchanged [OF rs h1]
  have d1: "map (deref ?h1) rs = map (deref h) rs" and v1: "valid_refs ?h1 rs"
    by simp_all
  from Cons.IH [OF v1, of ?m1] obtain h' where
    h': "forEach_heap z ?h1 rs ?m1 =
           Some (h', fold (\<lambda>(s, e, p). while_current z s e p) (map (deref ?h1) rs) ?m1)"
      "length ?h1 \<le> length h'" "take (length ?h1) h' = ?h1"
    by blast
  have "take (length h) h' = take (length h) (take (length ?h1) h')"
    by (simp add: min_def)
  also have "\<dots> = h"
    using h'(3) h1(2) by simp
  finally have t: "take (length h) h' = h" .
  have step: "forEach_heap z h (r # rs) m = forEach_heap z ?h1 rs ?m1"
    using w by (simp add: Let_def)
  have res: "fold (\<lambda>(s, e, p). while_current z s e p) (map (deref h) (r # rs)) m =
             fold (\<lambda>(s, e, p). while_current z s e p) (map (deref ?h1) rs) ?m1"
    unfolding d1 by (simp add: deref_def)
  have "forEach_heap z h (r # rs) m =
          Some (h', fold (\<lambda>(s, e, p). while_current z s e p) (map (deref h) (r # rs)) m)"
    unfolding step res by (rule h'(1))
  moreover have "length h \<le> length h'"
    using h'(2) by simp
  ultimately show ?case
    using t by blast
qed

lemma checkAvailability_heap_run:
  assumes "valid_refs h found"
  shows "\<exists>h'. checkAvailability_heap z h found =
                Some (h', let timelineMap =
                               fold (\<lambda>(s, e, p). while_current z s e p) (map (deref h) found) []
                          in \<lparr> isAvailable = list_all (\<lambda>v. v < 100) (map snd timelineMap),
                               allocations = timelineMap \<rparr>) \<and>
              length h \<le> length h' \<and> take (length h) h' = h"
proof -
  from forEach_heap_run [OF assms, of z "[]"] obtain h' where
    "forEach_heap z h found [] =
       Some (h', fold (\<lambda>(s, e, p). while_current z s e p) (map (deref h) found) [])"
    "length h \<le> length h'" "take (length h) h' = h"
    by blast
  then show ?thesis
    by (simp add: checkAvailability_heap_def Let_def)
qed

lemma checkAvailability_heap_refines:
  assumes "valid_refs h found"
    and "map (deref h) found =
         map (\<lambda>a. (startDate a, endDate a, allocationPercentage a))
           (find_overlapping (assignments d) e s t)"
  shows "\<exists>h'. checkAvailability_heap z h found = Some (h', checkAvailability z d e s t)"
  using checkAvailability_heap_run [OF assms(1), of z] assms(2)
  by (auto simp: checkAvailability_def Let_def forEach_assignment_triples)

section \<open>Running the examples\<close>

lemma utc_midnight_less: "(utc_midnight j < utc_midnight k) = (j < k)"
  using msPerDay_pos by (simp add: utc_midnight_def)

lemma while_current_utc:
  "while_current utc (utc_midnight a) (utc_midnight b) p m = add_on_days p [a..b] m"
  using visited_fixed_offset [OF fixed_offset_utc is_midnight_utc_midnight is_midnight_utc_midnight,
          of a b]
  by (simp add: while_current_visited utc_date_utc_midnight)

lemmas example_data =
  scenario_A_def fully_booked_def two_ranges_def two_sixties_def twins_def db_of_def mk_def
  engineer1_def engineer2_def manager9_def project1_def

lemmas run_checkAvailability =
  checkAvailability_def find_overlapping_def forEach_assignment_def while_current_utc
  add_on_days_def get_or_0_def utc_midnight_le utc_midnight_less upto_rec1 Let_def

lemmas run_save =
  save_def validate_def engineerId_validator_def allocationPercentage_validator_def
  endDate_validator_def currentAssignments_def

lemmas run_patch =
  patch_assignment_def truthy_def apply_updates_def isModified_allocationPercentage_def

text \<open>
  Where the zone changes its offset, or a date carries a time of day, the loop does not
  key each calendar day of a range once. In the zone that moves its clocks forward on
  day 2, an assignment at 60% from day 0 to day 4 keys day 2 twice and never keys day 4:
  the step from midnight UTC of day 2 lands at 23:00 UTC of the same day.
\<close>

lemma spring_forward_keys_a_day_twice:
  "allocations (checkAvailability spring_forward (db_of [mk 1 1 60 0 4]) 1
                  (utc_midnight 0) (utc_midnight 4)) =
     [(0, 60), (1, 60), (2, 120), (3, 60)]"
  by (simp add: example_data checkAvailability_def find_overlapping_def forEach_assignment_def
        while_current.simps setDate_next_def UTC_def LocalTime_def Rep_spring_forward
        utc_midnight_def msPerDay_def utc_date_def get_or_0_def)

text \<open>
  In UTC, an assignment that starts at noon of day 1 and ends at midnight of day 3 keys
  days 1 and 2 only: the third visit, at noon of day 3, is after the end.
\<close>

lemma time_of_day_drops_last_day:
  "allocations (checkAvailability utc
                  (db_of [(mk 1 1 60 1 3)\<lparr>startDate := utc_midnight 1 + 43200000\<rparr>]) 1
                  (utc_midnight 1) (utc_midnight 3)) =
     [(1, 60), (2, 60)]"
  by (simp add: example_data checkAvailability_def find_overlapping_def forEach_assignment_def
        while_current.simps setDate_next_utc
        utc_midnight_def msPerDay_def utc_date_def get_or_0_def)

text \<open>
  An engineer whose only assignment is at 100% is unavailable in every time zone: the
  first visit of the loop keys a day with 100.
\<close>

lemma fully_booked_unavailable:
  "\<not> isAvailable (checkAvailability z fully_booked 1 (utc_midnight 1) (utc_midnight 5))"
proof -
  let ?a = "mk 1 1 100 1 5"
  let ?m = "forEach_assignment z [?a] []"
  have found: "find_overlapping (assignments fully_booked) 1 (utc_midnight 1) (utc_midnight 5) = [?a]"
    by (simp add: example_data find_overlapping_def utc_midnight_le)
  have "visited z (utc_midnight 1) (utc_midnight 5) =
          utc_midnight 1 # visited z (setDate_next z (utc_midnight 1)) (utc_midnight 5)"
    by (subst visited.simps) (simp add: utc_midnight_le)
  then have "1 \<le> count_list (dates z ?a) 1"
    by (simp add: dates_def mk_def utc_date_utc_midnight)
  moreover have "get_or_0 ?m 1 = 100 * int (count_list (dates z ?a) 1)"
    by (simp add: get_or_0_forEach) (simp add: get_or_0_def mk_def)
  ultimately have "100 \<le> get_or_0 ?m 1"
    by simp
  then obtain v where "map_of ?m 1 = Some v" "100 \<le> v"
    by (auto simp: get_or_0_def split: option.splits)
  then have "(1, v) \<in> set ?m" "100 \<le> v"
    by (auto dest: map_of_SomeD)
  then have "\<not> list_all (\<lambda>v. v < 100) (map snd ?m)"
    using some_value_at_least_100 [of ?m] by blast
  then show ?thesis
    unfolding isAvailable_checkAvailability found .
qed

section \<open>The claims\<close>

text \<open>
  C1: the handler of PATCH accepts an update that changes only \<open>startDate\<close> without any
  capacity check. Engineer 1 holds 60% on days 1 to 5 and 60% on days 10 to 15; moving
  the start of the second assignment to day 3 is answered with status 200, in every time
  zone, and the stored assignments then sum to 120 on day 3.
\<close>

theorem C1_date_only_update_breaks_invariant:
  "patch_assignment z two_sixties 9 2
     \<lparr> p_allocationPercentage = None, p_startDate = Some (utc_midnight 3), p_endDate = None,
       p_role = None, p_otherKeys = [] \<rparr> =
     ((200, Doc (mk 2 1 60 3 15)), db_of [mk 1 1 60 1 5, mk 2 1 60 3 15]) \<and>
   total_on (of_engineer two_sixties 1) (utc_midnight 3) = 60 \<and>
   total_on (of_engineer (db_of [mk 1 1 60 1 5, mk 2 1 60 3 15]) 1) (utc_midnight 3) = 120"
  by (simp add: example_data run_patch run_save utc_midnight_le utc_midnight_less
        total_on_def of_engineer_def covers_def Let_def)

text \<open>
  C2 (as amended). In the verdict, every day is compared with \<open>value < 100\<close>: the verdict
  is available exactly when every accumulated total of the returned allocations is below
  100. A day at exactly 100 makes the verdict unavailable, as a day at 101 does; a day
  triggers unavailability iff its total is at least 100.
\<close>

theorem C2_unavailable_iff_some_day_at_least_100:
  "(\<not> isAvailable (checkAvailability z d e s t)) =
     (\<exists>x v. map_of (allocations (checkAvailability z d e s t)) x = Some v \<and> 100 \<le> v)"
proof -
  let ?m = "forEach_assignment z (find_overlapping (assignments d) e s t) []"
  have dist: "distinct (map fst ?m)"
    by (rule distinct_keys_forEach)
  have "(\<not> list_all (\<lambda>v. v < 100) (map snd ?m)) = (\<exists>x v. (x, v) \<in> set ?m \<and> 100 \<le> v)"
    by (rule some_value_at_least_100)
  also have "\<dots> = (\<exists>x v. map_of ?m x = Some v \<and> 100 \<le> v)"
    using dist by simp
  finally show ?thesis
    by (simp add: allocations_checkAvailability isAvailable_checkAvailability)
qed

text \<open>
  C2 (as stated) fails: with one stored assignment at 100%, day 1 has the accumulated
  total 100, and the verdict is not available.
\<close>

theorem C2_counterexample:
  "map_of (allocations (checkAvailability utc fully_booked 1 (utc_midnight 1) (utc_midnight 5)))
     1 = Some 100 \<and>
   isAvailable (checkAvailability utc fully_booked 1 (utc_midnight 1) (utc_midnight 5)) = False"
  by (simp add: example_data run_checkAvailability)




text \<open>
  C4: the capacity check of the PATCH handler counts the assignment that is being
  updated. An engineer whose only assignment is at 100% cannot have it lowered to 50%:
  in every time zone the handler answers 400 with the allocations of the assignment
  itself (in UTC, its own days 1 to 5 at 100), although the save-time validator, which
  excludes the document's own id, accepts the updated document.
\<close>

theorem C4_patch_counts_own_allocation:
  "patch_assignment z fully_booked 9 1
     \<lparr> p_allocationPercentage = Some 50, p_startDate = None, p_endDate = None,
       p_role = None, p_otherKeys = [] \<rparr> =
     ((400, Capacity ''Engineer does not have sufficient capacity for this update''
              (allocations (checkAvailability z fully_booked 1 (utc_midnight 1) (utc_midnight 5)))),
      fully_booked) \<and>
   allocations (checkAvailability utc fully_booked 1 (utc_midnight 1) (utc_midnight 5)) =
     [(1, 100), (2, 100), (3, 100), (4, 100), (5, 100)] \<and>
   currentAssignments fully_booked (mk 1 1 50 1 5) = [] \<and>
   save fully_booked (mk 1 1 50 1 5) False True = Inr (db_of [mk 1 1 50 1 5])"
proof -
  have p: "find (\<lambda>a. aid a = 1) (assignments fully_booked) = Some (mk 1 1 100 1 5)"
          "find (\<lambda>p. pid p = projectId (mk 1 1 100 1 5)) (projects fully_booked) = Some project1"
          "managerId project1 = 9"
          "engineerId (mk 1 1 100 1 5) = 1" "startDate (mk 1 1 100 1 5) = utc_midnight 1"
          "endDate (mk 1 1 100 1 5) = utc_midnight 5"
    by (simp_all add: example_data)
  have "patch_assignment z fully_booked 9 1
     \<lparr> p_allocationPercentage = Some 50, p_startDate = None, p_endDate = None,
       p_role = None, p_otherKeys = [] \<rparr> =
     ((400, Capacity ''Engineer does not have sufficient capacity for this update''
              (allocations (checkAvailability z fully_booked 1 (utc_midnight 1) (utc_midnight 5)))),
      fully_booked)"
    using fully_booked_unavailable [of z]
    by (simp add: patch_assignment_def truthy_def p Let_def del: One_nat_def)
  moreover have "allocations (checkAvailability utc fully_booked 1 (utc_midnight 1) (utc_midnight 5)) =
     [(1, 100), (2, 100), (3, 100), (4, 100), (5, 100)]"
    by (simp add: example_data run_checkAvailability)
  moreover have "currentAssignments fully_booked (mk 1 1 50 1 5) = [] \<and>
      save fully_booked (mk 1 1 50 1 5) False True = Inr (db_of [mk 1 1 50 1 5])"
    by (simp add: example_data run_save utc_midnight_less)
  ultimately show ?thesis by blast
qed

text \<open>
  C5 (as amended). The availability evaluation has no error condition: the availability
  route answers every window, also one whose end lies before its start, with status 200
  and a verdict, and the evaluation takes no candidate percentage. A range whose end is
  not after its start and a percentage outside [0,100] are rejected when the assignment
  is saved: \<open>save\<close> fails with a \<open>ValidationError\<close> that names \<open>endDate\<close>, respectively
  \<open>allocationPercentage\<close>, and stores nothing.
\<close>

theorem C5_no_error_in_evaluation_invalid_input_rejected_by_save:
  "get_availability z d e (Some s) (Some t) =
     (200, Availability (checkAvailability z d e s t)) \<and>
   (endDate a \<le> startDate a \<longrightarrow>
      (\<exists>paths. save d a isNew isModified = Inl (ValidationError paths) \<and>
               ''endDate'' \<in> set paths)) \<and>
   (allocationPercentage a < 0 \<or> 100 < allocationPercentage a \<longrightarrow>
      (\<exists>paths. save d a isNew isModified = Inl (ValidationError paths) \<and>
               ''allocationPercentage'' \<in> set paths))"
proof -
  have "\<exists>paths. save d a isNew isModified = Inl (ValidationError paths) \<and> p \<in> set paths"
    if "p \<in> set (validate d a isNew isModified)" for p
  proof (cases "validate d a isNew isModified")
    case Nil
    with that show ?thesis by simp
  next
    case (Cons q qs)
    with that show ?thesis by (auto simp: save_def)
  qed
  moreover have "''endDate'' \<in> set (validate d a isNew isModified)"
    if "endDate a \<le> startDate a"
    using that by (simp add: validate_def endDate_validator_def)
  moreover have "''allocationPercentage'' \<in> set (validate d a isNew isModified)"
    if "allocationPercentage a < 0 \<or> 100 < allocationPercentage a"
    using that by (auto simp: validate_def)
  ultimately show ?thesis
    by (simp add: get_availability_def)
qed

theorem C5_witness:
  "get_availability utc scenario_A 1 (Some (utc_midnight 10)) (Some (utc_midnight 5)) =
     (200, Availability (checkAvailability utc scenario_A 1 (utc_midnight 10) (utc_midnight 5))) \<and>
   endDate (mk 2 1 10 7 3) \<le> startDate (mk 2 1 10 7 3) \<and>
   (\<exists>paths. save scenario_A (mk 2 1 10 7 3) True True = Inl (ValidationError paths) \<and>
            ''endDate'' \<in> set paths) \<and>
   100 < allocationPercentage (mk 3 1 150 1 2) \<and>
   (\<exists>paths. save scenario_A (mk 3 1 150 1 2) True True = Inl (ValidationError paths) \<and>
            ''allocationPercentage'' \<in> set paths)"
proof -
  have r: "endDate (mk 2 1 10 7 3) \<le> startDate (mk 2 1 10 7 3)"
    by (simp add: mk_def utc_midnight_le)
  have p: "100 < allocationPercentage (mk 3 1 150 1 2)"
    by (simp add: mk_def)
  show ?thesis
    using C5_no_error_in_evaluation_invalid_input_rejected_by_save
            [of utc scenario_A 1 "utc_midnight 10" "utc_midnight 5" "mk 2 1 10 7 3" True True]
          C5_no_error_in_evaluation_invalid_input_rejected_by_save
            [of utc scenario_A 1 "utc_midnight 10" "utc_midnight 5" "mk 3 1 150 1 2" True True]
          r p
    by blast
qed

text \<open>
  C5 (as stated) fails: for the window from day 10 to day 5 the evaluation raises no
  error; it returns a verdict, and the availability route answers with status 200.
\<close>

theorem C5_counterexample:
  "utc_midnight 5 < utc_midnight 10 \<and>
   get_availability utc scenario_A 1 (Some (utc_midnight 10)) (Some (utc_midnight 5)) =
     (200, Availability \<lparr> isAvailable = True,
        allocations = [(1, 60), (2, 60), (3, 60), (4, 60), (5, 60),
                       (6, 60), (7, 60), (8, 60), (9, 60), (10, 60)] \<rparr>)"
  by (simp add: example_data run_checkAvailability get_availability_def)

text \<open>
  C6 (as amended). On a host whose time zone has no offset change, when the assignments
  of the engineer that overlap the window hold calendar dates (midnight UTC), have
  pairwise non-overlapping date ranges and each has an \<open>allocationPercentage\<close> below 100
  (so in [0,99] for stored integer percentages), the evaluation returns
  \<open>isAvailable = true\<close>.
\<close>

theorem C6_disjoint_below_100_is_available:
  assumes "fixed_offset z"
    and "list_all calendar_dates (find_overlapping (assignments d) e s t)"
    and "pairwise_disjoint (find_overlapping (assignments d) e s t)"
    and "list_all (\<lambda>a. allocationPercentage a < 100) (find_overlapping (assignments d) e s t)"
  shows "isAvailable (checkAvailability z d e s t)"
proof -
  let ?found = "find_overlapping (assignments d) e s t"
  let ?m = "forEach_assignment z ?found []"
  have "v < 100" if "(k, v) \<in> set ?m" for k v
  proof -
    have "map_of ?m k = Some v"
      using that by (simp add: distinct_keys_forEach)
    then have cov: "\<exists>a\<in>set ?found. covers a (utc_midnight k)"
      and v: "v = total_on ?found (utc_midnight k)"
      by (auto simp: map_of_forEach_fixed_offset [OF assms(1,2)] split: if_splits)
    from cov obtain a where a: "a \<in> set ?found" "covers a (utc_midnight k)" by blast
    then have "total_on ?found (utc_midnight k) = allocationPercentage a"
      using assms(3) by (simp add: total_on_pairwise_disjoint)
    moreover have "allocationPercentage a < 100"
      using assms(4) a(1) by (simp add: list_all_iff)
    ultimately show ?thesis using v by simp
  qed
  then have "list_all (\<lambda>v. v < 100) (map snd ?m)"
    by (auto simp: list_all_iff)
  then show ?thesis
    by (simp add: isAvailable_checkAvailability)
qed

theorem C6_witness:
  "fixed_offset utc \<and>
   list_all calendar_dates
     (find_overlapping (assignments two_ranges) 1 (utc_midnight 1) (utc_midnight 8)) \<and>
   pairwise_disjoint
     (find_overlapping (assignments two_ranges) 1 (utc_midnight 1) (utc_midnight 8)) \<and>
   list_all (\<lambda>a. allocationPercentage a < 100)
     (find_overlapping (assignments two_ranges) 1 (utc_midnight 1) (utc_midnight 8)) \<and>
   isAvailable (checkAvailability utc two_ranges 1 (utc_midnight 1) (utc_midnight 8))"
proof -
  have c: "list_all calendar_dates
             (find_overlapping (assignments two_ranges) 1 (utc_midnight 1) (utc_midnight 8))"
    by (simp add: example_data find_overlapping_def calendar_dates_def
          is_midnight_utc_midnight)
  have a: "pairwise_disjoint
             (find_overlapping (assignments two_ranges) 1 (utc_midnight 1) (utc_midnight 8))"
    by (simp add: example_data find_overlapping_def overlaps_def utc_midnight_le)
  have b: "list_all (\<lambda>a. allocationPercentage a < 100)
             (find_overlapping (assignments two_ranges) 1 (utc_midnight 1) (utc_midnight 8))"
    by (simp add: example_data find_overlapping_def utc_midnight_le)
  show ?thesis
    using C6_disjoint_below_100_is_available [OF fixed_offset_utc c a b]
      fixed_offset_utc c a b
    by simp
qed

text \<open>
  C6 (as stated) fails, on a host in UTC: a single stored assignment at 100% is a
  pairwise non-overlapping set with its percentage in [0,100], and the verdict is not
  available.
\<close>

theorem C6_counterexample:
  "pairwise_disjoint
     (find_overlapping (assignments fully_booked) 1 (utc_midnight 1) (utc_midnight 5)) \<and>
   list_all (\<lambda>a. 0 \<le> allocationPercentage a \<and> allocationPercentage a \<le> 100)
     (find_overlapping (assignments fully_booked) 1 (utc_midnight 1) (utc_midnight 5)) \<and>
   isAvailable (checkAvailability utc fully_booked 1 (utc_midnight 1) (utc_midnight 5)) = False"
  by (simp add: example_data run_checkAvailability)

text \<open>
  C7 (as amended). On a host whose time zone has no offset change, and with the
  assignments of the engineer that overlap the window holding calendar dates (midnight
  UTC): the keys of the returned allocations are exactly the calendar days from
  \<open>startDate\<close> to \<open>endDate\<close> of these found assignments, each key once, in the order of
  first insertion (the found assignments in the order of the query result, each from its
  \<open>startDate\<close> to its \<open>endDate\<close>). Days of the window that no assignment covers do not
  appear, and days of a found assignment outside the window do appear.
\<close>

theorem C7_keys_are_covered_days_in_insertion_order:
  assumes "fixed_offset z"
    and "list_all calendar_dates (find_overlapping (assignments d) e s t)"
  shows "map fst (allocations (checkAvailability z d e s t)) =
           rev (remdups (rev (concat (map days_of (find_overlapping (assignments d) e s t))))) \<and>
         distinct (map fst (allocations (checkAvailability z d e s t))) \<and>
         set (map fst (allocations (checkAvailability z d e s t))) =
           (\<Union>a\<in>set (find_overlapping (assignments d) e s t). set (days_of a))"
proof -
  let ?found = "find_overlapping (assignments d) e s t"
  have days: "map (dates z) ?found = map days_of ?found"
    using assms by (rule keys_fixed_offset)
  have "map fst (forEach_assignment z ?found []) =
          rev (remdups (rev (concat (map days_of ?found))))"
    by (simp add: keys_forEach fold_ins_first days)
  moreover have "distinct (map fst (forEach_assignment z ?found []))"
    by (rule distinct_keys_forEach)
  moreover have "set (map fst (forEach_assignment z ?found [])) = (\<Union>a\<in>set ?found. set (days_of a))"
    using set_keys_forEach [of z ?found] assms
    by (simp add: list_all_iff dates_fixed_offset)
  ultimately show ?thesis
    by (simp only: allocations_checkAvailability)
qed

theorem C7_witness:
  "fixed_offset utc \<and>
   list_all calendar_dates
     (find_overlapping (assignments two_ranges) 1 (utc_midnight 1) (utc_midnight 6)) \<and>
   map fst (allocations (checkAvailability utc two_ranges 1 (utc_midnight 1) (utc_midnight 6))) =
     rev (remdups (rev (concat (map days_of
       (find_overlapping (assignments two_ranges) 1 (utc_midnight 1) (utc_midnight 6))))))"
proof -
  have c: "list_all calendar_dates
             (find_overlapping (assignments two_ranges) 1 (utc_midnight 1) (utc_midnight 6))"
    by (simp add: example_data find_overlapping_def calendar_dates_def
          is_midnight_utc_midnight)
  show ?thesis
    using C7_keys_are_covered_days_in_insertion_order [OF fixed_offset_utc c]
      fixed_offset_utc c
    by blast
qed

text \<open>
  C7 (as stated) fails, on a host in UTC: for the window of days 1 to 6 the keys are 5,
  6, 7, 8, 1, 2, 3. They are not in date order, day 4 of the window is missing, and days
  7 and 8 lie outside the window.
\<close>

theorem C7_counterexample:
  "map fst (allocations (checkAvailability utc two_ranges 1 (utc_midnight 1) (utc_midnight 6))) =
     [5, 6, 7, 8, 1, 2, 3] \<and>
   [1..6] = [1, 2, 3, 4, 5, 6 :: int]"
  by (simp add: example_data run_checkAvailability)

text \<open>
  C8. The evaluation is repeatable and leaves the documents it is given as they were.
  Over the heap of \<open>Date\<close> objects, a call on found documents whose dates are in the
  heap returns a verdict; every cell that existed before the call keeps its value, so
  every found document still denotes the same dates and percentage (the loop advances
  only the copy made by \<open>new Date\<close>); and a second call, run on the heap the first one
  left, returns the same verdict.
\<close>

theorem C8_repeatable_and_leaves_documents_unchanged:
  assumes "valid_refs h found"
  shows "\<exists>h1 h2 v. checkAvailability_heap z h found = Some (h1, v) \<and>
                     take (length h) h1 = h \<and>
                     map (deref h1) found = map (deref h) found \<and>
                     checkAvailability_heap z h1 found = Some (h2, v)"
proof -
  from checkAvailability_heap_run [OF assms, of z] obtain h1 where
    first: "checkAvailability_heap z h found =
              Some (h1, let timelineMap =
                               fold (\<lambda>(s, e, p). while_current z s e p) (map (deref h) found) []
                        in \<lparr> isAvailable = list_all (\<lambda>v. v < 100) (map snd timelineMap),
                             allocations = timelineMap \<rparr>)"
    and frame: "length h \<le> length h1" "take (length h) h1 = h"
    by blast
  from deref_unchanged [OF assms frame]
  have same: "map (deref h1) found = map (deref h) found" and valid: "valid_refs h1 found"
    by simp_all
  from checkAvailability_heap_run [OF valid, of z] obtain h2 where
    "checkAvailability_heap z h1 found =
              Some (h2, let timelineMap =
                               fold (\<lambda>(s, e, p). while_current z s e p) (map (deref h1) found) []
                        in \<lparr> isAvailable = list_all (\<lambda>v. v < 100) (map snd timelineMap),
                             allocations = timelineMap \<rparr>)"
    by blast
  then show ?thesis
    using first frame(2) same by simp
qed

theorem C8_witness:
  "valid_refs [utc_midnight 1, utc_midnight 3]
     [\<lparr>ref_startDate = 0, ref_endDate = 1, ref_allocationPercentage = 60\<rparr>] \<and>
   (\<exists>h1 h2 v.
      checkAvailability_heap utc [utc_midnight 1, utc_midnight 3]
        [\<lparr>ref_startDate = 0, ref_endDate = 1, ref_allocationPercentage = 60\<rparr>] = Some (h1, v) \<and>
      take (length [utc_midnight 1, utc_midnight 3]) h1 = [utc_midnight 1, utc_midnight 3] \<and>
      checkAvailability_heap utc h1
        [\<lparr>ref_startDate = 0, ref_endDate = 1, ref_allocationPercentage = 60\<rparr>] = Some (h2, v))"
proof -
  have v: "valid_refs [utc_midnight 1, utc_midnight 3]
             [\<lparr>ref_startDate = 0, ref_endDate = 1, ref_allocationPercentage = 60\<rparr>]"
    by (simp add: valid_refs_def)
  show ?thesis
    using C8_repeatable_and_leaves_documents_unchanged [OF v, of utc] v by blast
qed



text \<open>
  C10. The verdict is independent of \<open>maxCapacity\<close>: it is determined by the date
  ranges and percentages of the found assignments alone (every day is compared with the
  constant 100). Two engineers, in the same or in different databases, whose found
  assignments agree in ranges and percentages get the same verdict, whatever the users
  collection holds.
\<close>

theorem C10_verdict_independent_of_maxCapacity:
  assumes "map (\<lambda>a. (startDate a, endDate a, allocationPercentage a))
               (find_overlapping (assignments d1) e1 s t) =
           map (\<lambda>a. (startDate a, endDate a, allocationPercentage a))
               (find_overlapping (assignments d2) e2 s t)"
  shows "checkAvailability z d1 e1 s t = checkAvailability z d2 e2 s t"
  using assms
  by (simp add: checkAvailability_def Let_def forEach_assignment_triples)

theorem C10_witness:
  "maxCapacity engineer1 \<noteq> maxCapacity engineer2 \<and>
   find (\<lambda>u. uid u = 1) (users twins) = Some engineer1 \<and>
   find (\<lambda>u. uid u = 2) (users twins) = Some engineer2 \<and>
   checkAvailability utc twins 1 (utc_midnight 1) (utc_midnight 5) =
     checkAvailability utc twins 2 (utc_midnight 1) (utc_midnight 5)"
proof -
  have a: "map (\<lambda>a. (startDate a, endDate a, allocationPercentage a))
               (find_overlapping (assignments twins) 1 (utc_midnight 1) (utc_midnight 5)) =
           map (\<lambda>a. (startDate a, endDate a, allocationPercentage a))
               (find_overlapping (assignments twins) 2 (utc_midnight 1) (utc_midnight 5))"
    by (simp add: example_data find_overlapping_def utc_midnight_le)
  have b: "maxCapacity engineer1 \<noteq> maxCapacity engineer2"
    by (simp add: engineer1_def engineer2_def)
  have c: "find (\<lambda>u. uid u = 1) (users twins) = Some engineer1"
          "find (\<lambda>u. uid u = 2) (users twins) = Some engineer2"
    by (simp_all add: twins_def db_of_def engineer1_def engineer2_def)
  show ?thesis
    using C10_verdict_independent_of_maxCapacity [OF a, of utc] b c by simp
qed

end
